theory Spec2Isabelle
  imports Main "HOL-Library.Multiset"
begin

section \<open>The Tombola family of random-picking containers\<close>

text \<open>
  The notebook \<^verbatim>\<open>11-iface-abc.ipynb\<close> defines the abstract base class \<^verbatim>\<open>Tombola\<close>
  and three classes meant to satisfy its interface: \<^verbatim>\<open>BingoCage\<close>, \<^verbatim>\<open>LotteryBlower\<close>
  and \<^verbatim>\<open>TomboList\<close>. Objects are modelled by explicit state passing: a method takes
  the state and returns its outcome together with the state it leaves behind, also when
  it raises. Items are values of a linearly ordered type, so that \<^verbatim>\<open>sorted\<close> is defined
  on them.
\<close>

subsection \<open>Exceptions\<close>

text \<open>
  The exception classes that occur in the code. In Python \<^verbatim>\<open>IndexError\<close> is a subclass of
  \<^verbatim>\<open>LookupError\<close>, so a clause \<^verbatim>\<open>except LookupError\<close> catches both.
\<close>

datatype error = LookupError | IndexError | ValueError | AttributeError

fun isinstance_LookupError :: "error \<Rightarrow> bool" where
  "isinstance_LookupError LookupError = True"
| "isinstance_LookupError IndexError = True"
| "isinstance_LookupError ValueError = False"
| "isinstance_LookupError AttributeError = False"

text \<open>A method of an object with state \<open>'s\<close> that returns an \<open>'r\<close> or raises.\<close>

type_synonym ('r, 's) meth = "'s \<Rightarrow> (error + 'r) \<times> 's"

subsection \<open>The random number generators\<close>

text \<open>
  A generator is the infinite sequence of the raw draws it is going to deliver; nothing
  is assumed about them. \<^verbatim>\<open>_randbelow(n)\<close> consumes one draw and reduces it below \<open>n\<close>,
  so every value below \<open>n\<close> is a possible outcome. (The library's rejection sampling,
  which may ask the source for bits more than once, is taken to end.)
\<close>

type_synonym entropy = "nat \<Rightarrow> nat"

definition randbelow :: "nat \<Rightarrow> entropy \<Rightarrow> nat \<times> entropy" where
  "randbelow n g = (g 0 mod n, g \<circ> Suc)"

text \<open>
  \<^verbatim>\<open>randrange(stop)\<close> raises \<^verbatim>\<open>ValueError\<close> for an empty range, before any draw.
\<close>

definition randrange :: "nat \<Rightarrow> entropy \<Rightarrow> (error + nat) \<times> entropy" where
  "randrange stop g =
     (if 0 < stop then (case randbelow stop g of (r, g') \<Rightarrow> (Inr r, g'))
      else (Inl ValueError, g))"

text \<open>
  \<^verbatim>\<open>Random.shuffle(x)\<close> of the standard library:
  \<^verbatim>\<open>
  for i in reversed(range(1, len(x))):
      j = randbelow(i + 1)
      x[i], x[j] = x[j], x[i]
  \<close>
  \<open>shuffle_from i\<close> is the loop from index \<open>i\<close> down to 1.
\<close>

fun shuffle_from :: "nat \<Rightarrow> entropy \<Rightarrow> 'a list \<Rightarrow> 'a list \<times> entropy" where
  "shuffle_from 0 g x = (x, g)"
| "shuffle_from (Suc k) g x =
     (case randbelow (Suc k + 1) g of
        (j, g') \<Rightarrow> shuffle_from k g' (x[Suc k := x ! j, j := x ! Suc k]))"

definition shuffle :: "entropy \<Rightarrow> 'a list \<Rightarrow> 'a list \<times> entropy" where
  "shuffle g x = shuffle_from (length x - 1) g x"

subsection \<open>List methods\<close>

text \<open>
  \<^verbatim>\<open>list.pop(i)\<close>: a negative index counts from the end; an index out of range raises
  \<^verbatim>\<open>IndexError\<close> and leaves the list as it is. \<^verbatim>\<open>list.pop()\<close> is \<^verbatim>\<open>list.pop(-1)\<close>.
\<close>

definition list_pop_at :: "int \<Rightarrow> 'a list \<Rightarrow> (error + 'a) \<times> 'a list" where
  "list_pop_at i xs =
     (let n = int (length xs); j = (if i < 0 then i + n else i)
      in if j < 0 \<or> n \<le> j then (Inl IndexError, xs)
         else (Inr (xs ! nat j), take (nat j) xs @ drop (Suc (nat j)) xs))"

definition list_pop :: "'a list \<Rightarrow> (error + 'a) \<times> 'a list" where
  "list_pop xs = list_pop_at (- 1) xs"

definition list_extend :: "'a list \<Rightarrow> 'a list \<Rightarrow> 'a list" where
  "list_extend xs iterable = xs @ iterable"

subsection \<open>Tombola: the abstract base class\<close>

text \<open>
  The loop of \<^verbatim>\<open>Tombola.inspect\<close>:
  \<^verbatim>\<open>
  while True:
      try:
          items.append(self.pick())
      except LookupError:
          break
  \<close>
  \<open>pick\<close> is the method of the concrete class. Any other exception leaves the loop and
  the call; a \<open>pick\<close> that never raises keeps the loop running for ever, which is the
  value \<open>None\<close>.
\<close>

partial_function (option) pick_until_empty ::
  "('a, 's) meth \<Rightarrow> 's \<Rightarrow> 'a list \<Rightarrow> ((error + 'a list) \<times> 's) option" where
  "pick_until_empty pick s items =
     (case pick s of
        (Inl e, s') \<Rightarrow>
          if isinstance_LookupError e then Some (Inr items, s') else Some (Inl e, s')
      | (Inr x, s') \<Rightarrow> pick_until_empty pick s' (items @ [x]))"

text \<open>
  \<^verbatim>\<open>
  def inspect(self):
      items = []
      ... the loop ...
      self.load(items)
      return tuple(sorted(items))
  \<close>
\<close>

definition Tombola_inspect ::
  "('a::linorder, 's) meth \<Rightarrow> ('a list \<Rightarrow> (unit, 's) meth) \<Rightarrow> 's \<Rightarrow>
     ((error + 'a list) \<times> 's) option" where
  "Tombola_inspect pick load s =
     (case pick_until_empty pick s [] of
        None \<Rightarrow> None
      | Some (Inl e, s') \<Rightarrow> Some (Inl e, s')
      | Some (Inr items, s') \<Rightarrow>
          (case load items s' of
             (Inl e, s'') \<Rightarrow> Some (Inl e, s'')
           | (Inr _, s'') \<Rightarrow> Some (Inr (sort items), s'')))"

text \<open>\<^verbatim>\<open>def loaded(self): return bool(self.inspect())\<close>\<close>

definition Tombola_loaded ::
  "('a::linorder, 's) meth \<Rightarrow> ('a list \<Rightarrow> (unit, 's) meth) \<Rightarrow> 's \<Rightarrow>
     ((error + bool) \<times> 's) option" where
  "Tombola_loaded pick load s =
     (case Tombola_inspect pick load s of
        None \<Rightarrow> None
      | Some (Inl e, s') \<Rightarrow> Some (Inl e, s')
      | Some (Inr t, s') \<Rightarrow> Some (Inr (t \<noteq> []), s'))"

subsection \<open>BingoCage\<close>

text \<open>
  \<^verbatim>\<open>
  class BingoCage(Tombola):
      def __init__(self, items):
          self._randomizer = random.SystemRandom()
          self._items = []
          self.load(items)
  \<close>
  The fields \<open>randomizer\<close> and \<open>items\<close> are \<^verbatim>\<open>_randomizer\<close> and \<^verbatim>\<open>_items\<close>. The
  constructor takes the draws of the new \<^verbatim>\<open>SystemRandom\<close> as an argument.
\<close>

record 'a BingoCage =
  randomizer :: entropy
  items :: "'a list"

text \<open>
  \<^verbatim>\<open>
  def load(self, items):
      self._items.extend(items)
      self._randomizer.shuffle(self._items)
  \<close>
\<close>

definition BingoCage_load :: "'a list \<Rightarrow> (unit, 'a BingoCage) meth" where
  "BingoCage_load iterable self =
     (case shuffle (randomizer self) (list_extend (items self) iterable) of
        (x, g') \<Rightarrow> (Inr (), self\<lparr>randomizer := g', items := x\<rparr>))"

definition BingoCage_init :: "entropy \<Rightarrow> 'a list \<Rightarrow> (error + unit) \<times> 'a BingoCage" where
  "BingoCage_init g iterable = BingoCage_load iterable \<lparr>randomizer = g, items = []\<rparr>"

text \<open>
  \<^verbatim>\<open>
  def pick(self):
      try:
          return self._items.pop()
      except IndexError:
          raise LookupError('pick from empty BingoCage')
  \<close>
\<close>

definition BingoCage_pick :: "('a, 'a BingoCage) meth" where
  "BingoCage_pick self =
     (case list_pop (items self) of
        (Inl e, xs) \<Rightarrow> (Inl (if e = IndexError then LookupError else e), self\<lparr>items := xs\<rparr>)
      | (Inr x, xs) \<Rightarrow> (Inr x, self\<lparr>items := xs\<rparr>))"

text \<open>
  \<^verbatim>\<open>
  def __call__(self):
      self.pick()
  \<close>
  The body has no \<^verbatim>\<open>return\<close>: the call evaluates to Python's \<^verbatim>\<open>None\<close>, here the
  \<open>None\<close> of \<open>'a option\<close>.
\<close>

definition BingoCage_call :: "('a option, 'a BingoCage) meth" where
  "BingoCage_call self =
     (case BingoCage_pick self of
        (Inl e, self') \<Rightarrow> (Inl e, self')
      | (Inr x, self') \<Rightarrow> (Inr None, self'))"

text \<open>\<^verbatim>\<open>inspect\<close> and \<^verbatim>\<open>loaded\<close> are inherited from \<^verbatim>\<open>Tombola\<close>.\<close>

definition BingoCage_inspect ::
  "'a::linorder BingoCage \<Rightarrow> ((error + 'a list) \<times> 'a BingoCage) option" where
  "BingoCage_inspect = Tombola_inspect BingoCage_pick BingoCage_load"

definition BingoCage_loaded ::
  "'a::linorder BingoCage \<Rightarrow> ((error + bool) \<times> 'a BingoCage) option" where
  "BingoCage_loaded = Tombola_loaded BingoCage_pick BingoCage_load"

subsection \<open>LotteryBlower\<close>

text \<open>
  \<^verbatim>\<open>
  class LotteryBlower(Tombola):
      def __init__(self, iterable):
          self._balls = list(iterable)
  \<close>
  \<^verbatim>\<open>pick\<close> draws from the generator of the module \<^verbatim>\<open>random\<close>, which is not part of the
  object: the methods work on the pair of that generator and the object.
\<close>

record 'a LotteryBlower =
  balls :: "'a list"

definition LotteryBlower_init :: "'a list \<Rightarrow> 'a LotteryBlower" where
  "LotteryBlower_init iterable = \<lparr>balls = iterable\<rparr>"

text \<open>
  \<^verbatim>\<open>
  def load(self, iterable):
      self._balls.extend(iterable)
  \<close>
\<close>

definition LotteryBlower_load ::
  "'a list \<Rightarrow> (unit, entropy \<times> 'a LotteryBlower) meth" where
  "LotteryBlower_load iterable = (\<lambda>(g, self).
     (Inr (), (g, self\<lparr>balls := list_extend (balls self) iterable\<rparr>)))"

text \<open>
  \<^verbatim>\<open>
  def pick(self):
      try:
          position = random.randrange(len(self._balls))
      except ValueError:
          raise LookupError('pick from empty BingoCage')
      return self._balls.pop(position)
  \<close>
\<close>

definition LotteryBlower_pick :: "('a, entropy \<times> 'a LotteryBlower) meth" where
  "LotteryBlower_pick = (\<lambda>(g, self).
     (case randrange (length (balls self)) g of
        (Inl e, g') \<Rightarrow> (Inl (if e = ValueError then LookupError else e), (g', self))
      | (Inr position, g') \<Rightarrow>
          (case list_pop_at (int position) (balls self) of
             (r, xs) \<Rightarrow> (r, (g', self\<lparr>balls := xs\<rparr>)))))"

text \<open>\<^verbatim>\<open>def loaded(self): return bool(self._balls)\<close>\<close>

definition LotteryBlower_loaded :: "(bool, entropy \<times> 'a LotteryBlower) meth" where
  "LotteryBlower_loaded = (\<lambda>(g, self). (Inr (balls self \<noteq> []), (g, self)))"

text \<open>\<^verbatim>\<open>def inspect(self): return tuple(sorted(self._balls))\<close>\<close>

definition LotteryBlower_inspect ::
  "('a::linorder list, entropy \<times> 'a LotteryBlower) meth" where
  "LotteryBlower_inspect = (\<lambda>(g, self). (Inr (sort (balls self)), (g, self)))"

subsection \<open>TomboList\<close>

text \<open>
  \<^verbatim>\<open>
  @Tombola.register
  class TomboList(list):
      def pick(self):
          if self:
              position = randrange(len(self))
              return self.pop(position)
          else:
              raise LookupError('pop from empty TomboList')
          load = list.extend

      def loaded(self):
          return bool(self)

      def inspect(self):
          return tuple(sorted(self))
  \<close>
  The object is the list itself; the constructor is the one of \<^verbatim>\<open>list\<close>. As for
  \<^verbatim>\<open>LotteryBlower\<close>, the generator of the module \<^verbatim>\<open>random\<close> is the first component of
  the state.
\<close>

type_synonym 'a TomboList = "'a list"

definition TomboList_init :: "'a list \<Rightarrow> 'a TomboList" where
  "TomboList_init iterable = iterable"

definition TomboList_pick :: "('a, entropy \<times> 'a TomboList) meth" where
  "TomboList_pick = (\<lambda>(g, self).
     if self \<noteq> [] then
       (case randrange (length self) g of
          (Inl e, g') \<Rightarrow> (Inl e, (g', self))
        | (Inr position, g') \<Rightarrow>
            (case list_pop_at (int position) self of
               (r, xs) \<Rightarrow> (r, (g', xs))))
     else (Inl LookupError, (g, self)))"

text \<open>
  The assignment \<^verbatim>\<open>load = list.extend\<close> is indented into the body of \<^verbatim>\<open>pick\<close>, behind an
  \<^verbatim>\<open>if\<close> whose two branches return and raise: it never runs, and it would bind a local
  variable of \<^verbatim>\<open>pick\<close>. The class body binds \<^verbatim>\<open>pick\<close>, \<^verbatim>\<open>loaded\<close> and \<^verbatim>\<open>inspect\<close> only,
  \<^verbatim>\<open>list\<close> has no attribute \<^verbatim>\<open>load\<close>, and a registered virtual subclass inherits nothing
  from \<^verbatim>\<open>Tombola\<close>. Looking \<^verbatim>\<open>load\<close> up on a \<^verbatim>\<open>TomboList\<close> therefore raises
  \<^verbatim>\<open>AttributeError\<close>, before any argument is used.
\<close>

definition TomboList_load :: "'a list \<Rightarrow> (unit, entropy \<times> 'a TomboList) meth" where
  "TomboList_load iterable = (\<lambda>(g, self). (Inl AttributeError, (g, self)))"

definition TomboList_loaded :: "(bool, entropy \<times> 'a TomboList) meth" where
  "TomboList_loaded = (\<lambda>(g, self). (Inr (self \<noteq> []), (g, self)))"

definition TomboList_inspect :: "('a::linorder list, entropy \<times> 'a TomboList) meth" where
  "TomboList_inspect = (\<lambda>(g, self). (Inr (sort self), (g, self)))"

subsection \<open>Runs of successful picks\<close>

text \<open>
  \<open>picked pick s xs s'\<close>: starting in state \<open>s\<close>, successive calls of \<open>pick\<close> return the
  items \<open>xs\<close>, in this order and without raising, and leave the state \<open>s'\<close>. It is used to
  speak about an exception raised in the middle of the loop of \<^verbatim>\<open>Tombola.inspect\<close>.
\<close>

inductive picked :: "('a, 's) meth \<Rightarrow> 's \<Rightarrow> 'a list \<Rightarrow> 's \<Rightarrow> bool"
  for pick :: "('a, 's) meth" where
  picked_none: "picked pick s [] s"
| picked_more: "pick s = (Inr x, s') \<Longrightarrow> picked pick s' xs s'' \<Longrightarrow> picked pick s (x # xs) s''"

section \<open>Facts about the library functions\<close>

lemma list_pop_at_in_range:
  "p < length xs \<Longrightarrow>
     list_pop_at (int p) xs = (Inr (xs ! p), take p xs @ drop (Suc p) xs)"
  by (simp add: list_pop_at_def)

lemma list_pop_Nil: "list_pop [] = (Inl IndexError, [])"
  by (simp add: list_pop_def list_pop_at_def)

lemma list_pop_snoc: "list_pop (xs @ [x]) = (Inr x, xs)"
  by (simp add: list_pop_def list_pop_at_def Let_def nat_add_distrib)

lemma list_pop_nonempty: "xs \<noteq> [] \<Longrightarrow> list_pop xs = (Inr (last xs), butlast xs)"
  using list_pop_snoc [of "butlast xs" "last xs"] by simp

lemma mset_remove_nth:
  "p < length xs \<Longrightarrow> add_mset (xs ! p) (mset (take p xs @ drop (Suc p) xs)) = mset xs"
proof -
  assume p: "p < length xs"
  then have "xs = take p xs @ xs ! p # drop (Suc p) xs"
    by (simp add: id_take_nth_drop)
  then have "mset xs = mset (take p xs @ xs ! p # drop (Suc p) xs)"
    by simp
  then show ?thesis by simp
qed

lemma shuffle_from_mset:
  "k < length x \<Longrightarrow> mset (fst (shuffle_from k g x)) = mset x"
proof (induction k arbitrary: g x)
  case 0
  then show ?case by simp
next
  case (Suc k)
  define j where "j = g 0 mod Suc (Suc k)"
  define x' where "x' = x[Suc k := x ! j, j := x ! Suc k]"
  have "j < Suc (Suc k)" unfolding j_def by simp
  then have j: "j < length x" using Suc.prems by arith
  have perm: "mset x' = mset x" unfolding x'_def by (rule mset_swap [OF j Suc.prems])
  have len: "k < length x'" using Suc.prems by (simp add: x'_def)
  have step: "shuffle_from (Suc k) g x = shuffle_from k (g \<circ> Suc) x'"
    by (simp add: randbelow_def j_def x'_def)
  have "mset (fst (shuffle_from k (g \<circ> Suc) x')) = mset x'"
    using len by (rule Suc.IH)
  then show ?case by (simp only: step perm)
qed

lemma shuffle_mset: "mset (fst (shuffle g x)) = mset x"
proof (cases x)
  case Nil
  then show ?thesis by (simp add: shuffle_def)
next
  case (Cons a as)
  then show ?thesis by (simp add: shuffle_def shuffle_from_mset)
qed

lemma shuffle_Nil: "shuffle g [] = ([], g)"
  by (simp add: shuffle_def)




lemma mset_take_drop: "mset xs = mset (take n xs) + mset (drop n xs)"
  by (metis append_take_drop_id mset_append)

lemma shuffle_from_reaches:
  "k < length x \<Longrightarrow> length ys = length x \<Longrightarrow>
   mset (take (Suc k) ys) = mset (take (Suc k) x) \<Longrightarrow>
   drop (Suc k) ys = drop (Suc k) x \<Longrightarrow> \<exists>g. fst (shuffle_from k g x) = ys"
proof (induction k arbitrary: x)
  case 0
  obtain a as where x: "x = a # as" using "0.prems"(1) by (cases x) auto
  obtain b bs where ys: "ys = b # bs" using "0.prems"(1,2) by (cases ys) auto
  have "ys = x" using "0.prems"(3,4) by (simp add: x ys)
  then show ?case by simp
next
  case (Suc k)
  let ?n = "Suc (Suc k)"
  have lys: "Suc k < length ys" using Suc.prems(1,2) by simp
  have "ys ! Suc k \<in> set (take ?n ys)"
    using lys by (simp add: take_Suc_conv_app_nth [of "Suc k"])
  then have "ys ! Suc k \<in> set (take ?n x)"
    using Suc.prems(3) by (metis set_mset_mset)
  then obtain j where j: "j < ?n" and xj: "x ! j = ys ! Suc k"
    by (auto simp add: in_set_conv_nth)
  have jl: "j < length x" using j Suc.prems(1) by arith
  define x' where "x' = x[Suc k := x ! j, j := x ! Suc k]"
  have len: "length x' = length x" by (simp add: x'_def)
  have top: "x' ! Suc k = ys ! Suc k"
    using Suc.prems(1) jl xj by (auto simp add: x'_def nth_list_update)
  have dr2: "drop ?n x' = drop ?n x"
    using j by (simp add: x'_def)
  have dr: "drop (Suc k) ys = drop (Suc k) x'"
    using Suc.prems(1,4) lys len top dr2
    by (metis Cons_nth_drop_Suc)
  have perm: "mset x' = mset x"
    unfolding x'_def by (rule mset_swap [OF jl Suc.prems(1)])
  have "mset (take ?n x') + mset (drop ?n x') = mset (take ?n x) + mset (drop ?n x)"
    using perm mset_take_drop [of x' ?n] mset_take_drop [of x ?n] by simp
  then have "mset (take ?n x') = mset (take ?n ys)"
    using dr2 Suc.prems(3) by simp
  then have "add_mset (x' ! Suc k) (mset (take (Suc k) x')) =
             add_mset (ys ! Suc k) (mset (take (Suc k) ys))"
    using lys Suc.prems(1) len by (simp add: take_Suc_conv_app_nth [of "Suc k"])
  then have tk: "mset (take (Suc k) ys) = mset (take (Suc k) x')"
    using top by simp
  have "k < length x'" using Suc.prems(1) len by simp
  from Suc.IH [OF this _ tk dr] Suc.prems(2) len
  obtain g' where g': "fst (shuffle_from k g' x') = ys" by auto
  define g where "g = case_nat j g'"
  have "g \<circ> Suc = g'" by (simp add: g_def fun_eq_iff)
  moreover have "g 0 mod ?n = j" using j by (simp add: g_def)
  ultimately have "shuffle_from (Suc k) g x = shuffle_from k g' x'"
    by (simp add: randbelow_def x'_def)
  then show ?case using g' by metis
qed

lemma shuffle_reaches:
  assumes "mset ys = mset xs"
  shows "\<exists>g. fst (shuffle g xs) = ys"
proof (cases xs)
  case Nil
  then show ?thesis using assms by (simp add: shuffle_def)
next
  case (Cons a as)
  have l: "length ys = length xs" using assms by (rule mset_eq_length)
  have "\<exists>g. fst (shuffle_from (length as) g xs) = ys"
    using assms l Cons by (intro shuffle_from_reaches) simp_all
  then show ?thesis by (simp add: shuffle_def Cons)
qed

lemma shuffle_outcomes:
  "{ys. \<exists>g. ys = fst (shuffle g xs)} = {ys. mset ys = mset xs}"
  using shuffle_reaches [of _ xs] by (auto simp add: shuffle_mset)

lemma sort_rev_eq: "sort (rev xs) = sort xs"
  by (rule properties_for_sort) simp_all

lemma sort_eq_Nil: "(sort xs = []) = (xs = [])"
  by (metis length_sort length_0_conv)

lemma mset_butlast_last: "xs \<noteq> [] \<Longrightarrow> mset xs = add_mset (last xs) (mset (butlast xs))"
  using mset_append [of "butlast xs" "[last xs]"] by simp

section \<open>Facts about the classes\<close>

lemma BingoCage_pick_cases:
  "BingoCage_pick s =
     (if items s = [] then (Inl LookupError, s)
      else (Inr (last (items s)), s\<lparr>items := butlast (items s)\<rparr>))"
  by (simp add: BingoCage_pick_def list_pop_Nil list_pop_nonempty)

lemma pick_until_empty_stop:
  "pick s = (Inl e, s') \<Longrightarrow>
     pick_until_empty pick s acc =
       (if isinstance_LookupError e then Some (Inr acc, s') else Some (Inl e, s'))"
  by (subst pick_until_empty.simps) simp

lemma pick_until_empty_step:
  "pick s = (Inr x, s') \<Longrightarrow>
     pick_until_empty pick s acc = pick_until_empty pick s' (acc @ [x])"
  by (subst pick_until_empty.simps) simp

lemma BingoCage_drain:
  "pick_until_empty BingoCage_pick s acc = Some (Inr (acc @ rev (items s)), s\<lparr>items := []\<rparr>)"
proof (induction "items s" arbitrary: s acc rule: rev_induct)
  case Nil
  then have "BingoCage_pick s = (Inl LookupError, s)"
    by (simp add: BingoCage_pick_cases)
  then show ?case using Nil by (simp add: pick_until_empty_stop)
next
  case (snoc x xs)
  have its: "items s = xs @ [x]" using snoc.hyps(2) by simp
  have "BingoCage_pick s = (Inr x, s\<lparr>items := xs\<rparr>)"
    by (simp add: BingoCage_pick_cases its)
  then have "pick_until_empty BingoCage_pick s acc =
          pick_until_empty BingoCage_pick (s\<lparr>items := xs\<rparr>) (acc @ [x])"
    by (rule pick_until_empty_step)
  also have "\<dots> = Some (Inr ((acc @ [x]) @ rev xs), s\<lparr>items := xs\<rparr>\<lparr>items := []\<rparr>)"
    using snoc.hyps(1) [of "s\<lparr>items := xs\<rparr>" "acc @ [x]"] by simp
  finally show ?case by (simp add: its)
qed


lemma LotteryBlower_pick_cases:
  "LotteryBlower_pick (g, b) =
     (if balls b = [] then (Inl LookupError, (g, b))
      else (Inr (balls b ! (g 0 mod length (balls b))),
            (g \<circ> Suc,
             b\<lparr>balls := take (g 0 mod length (balls b)) (balls b) @
                          drop (Suc (g 0 mod length (balls b))) (balls b)\<rparr>)))"
  by (simp add: LotteryBlower_pick_def randrange_def randbelow_def list_pop_at_in_range)

lemma TomboList_pick_cases:
  "TomboList_pick (g, xs) =
     (if xs = [] then (Inl LookupError, (g, xs))
      else (Inr (xs ! (g 0 mod length xs)),
            (g \<circ> Suc,
             take (g 0 mod length xs) xs @ drop (Suc (g 0 mod length xs)) xs)))"
  by (simp add: TomboList_pick_def randrange_def randbelow_def list_pop_at_in_range)

lemma LotteryBlower_drain:
  "\<exists>ys g'. pick_until_empty LotteryBlower_pick (g, b) acc =
              Some (Inr (acc @ ys), (g', b\<lparr>balls := []\<rparr>)) \<and>
            mset ys = mset (balls b)"
proof (induction "length (balls b)" arbitrary: g b acc)
  case 0
  then have "LotteryBlower_pick (g, b) = (Inl LookupError, (g, b))"
    by (simp add: LotteryBlower_pick_cases)
  then have "pick_until_empty LotteryBlower_pick (g, b) acc = Some (Inr acc, (g, b))"
    by (simp add: pick_until_empty_stop)
  then show ?case using 0 by simp
next
  case (Suc n)
  define p where "p = g 0 mod length (balls b)"
  define b' where "b' = b\<lparr>balls := take p (balls b) @ drop (Suc p) (balls b)\<rparr>"
  have ne: "balls b \<noteq> []" using Suc.hyps(2) by auto
  then have p: "p < length (balls b)" by (simp add: p_def)
  have "LotteryBlower_pick (g, b) = (Inr (balls b ! p), (g \<circ> Suc, b'))"
    using ne by (simp add: LotteryBlower_pick_cases p_def b'_def)
  then have step: "pick_until_empty LotteryBlower_pick (g, b) acc =
      pick_until_empty LotteryBlower_pick (g \<circ> Suc, b') (acc @ [balls b ! p])"
    by (rule pick_until_empty_step)
  have "n = length (balls b')" using Suc.hyps(2) p by (simp add: b'_def)
  from Suc.hyps(1) [OF this, of "g \<circ> Suc" "acc @ [balls b ! p]"]
  obtain ys g' where run: "pick_until_empty LotteryBlower_pick (g \<circ> Suc, b') (acc @ [balls b ! p]) =
        Some (Inr ((acc @ [balls b ! p]) @ ys), (g', b'\<lparr>balls := []\<rparr>))"
    and ys: "mset ys = mset (balls b')"
    by blast
  have "mset (balls b ! p # ys) = mset (balls b)"
    using ys mset_remove_nth [OF p] by (simp add: b'_def)
  moreover have "pick_until_empty LotteryBlower_pick (g, b) acc =
      Some (Inr (acc @ balls b ! p # ys), (g', b\<lparr>balls := []\<rparr>))"
    using step run by (simp add: b'_def)
  ultimately show ?case by blast
qed

lemma TomboList_drain:
  "\<exists>ys g'. pick_until_empty TomboList_pick (g, xs) acc = Some (Inr (acc @ ys), (g', [])) \<and>
            mset ys = mset xs"
proof (induction "length xs" arbitrary: g xs acc)
  case 0
  then have "TomboList_pick (g, xs) = (Inl LookupError, (g, xs))"
    by (simp add: TomboList_pick_cases)
  then have "pick_until_empty TomboList_pick (g, xs) acc = Some (Inr acc, (g, xs))"
    by (simp add: pick_until_empty_stop)
  then show ?case using 0 by simp
next
  case (Suc n)
  define p where "p = g 0 mod length xs"
  define xs' where "xs' = take p xs @ drop (Suc p) xs"
  have ne: "xs \<noteq> []" using Suc.hyps(2) by auto
  then have p: "p < length xs" by (simp add: p_def)
  have "TomboList_pick (g, xs) = (Inr (xs ! p), (g \<circ> Suc, xs'))"
    using ne by (simp add: TomboList_pick_cases p_def xs'_def)
  then have step: "pick_until_empty TomboList_pick (g, xs) acc =
      pick_until_empty TomboList_pick (g \<circ> Suc, xs') (acc @ [xs ! p])"
    by (rule pick_until_empty_step)
  have "n = length xs'" using Suc.hyps(2) p by (simp add: xs'_def)
  from Suc.hyps(1) [OF this, of "g \<circ> Suc" "acc @ [xs ! p]"]
  obtain ys g' where run: "pick_until_empty TomboList_pick (g \<circ> Suc, xs') (acc @ [xs ! p]) =
        Some (Inr ((acc @ [xs ! p]) @ ys), (g', []))"
    and ys: "mset ys = mset xs'"
    by blast
  have "mset (xs ! p # ys) = mset xs"
    using ys mset_remove_nth [OF p] by (simp add: xs'_def)
  moreover have "pick_until_empty TomboList_pick (g, xs) acc =
      Some (Inr (acc @ xs ! p # ys), (g', []))"
    using step run by simp
  ultimately show ?case by blast
qed

lemma BingoCage_inspect_eq:
  "BingoCage_inspect s =
     Some (Inr (sort (items s)),
           s\<lparr>randomizer := snd (shuffle (randomizer s) (rev (items s))),
             items := fst (shuffle (randomizer s) (rev (items s)))\<rparr>)"
  by (simp add: BingoCage_inspect_def Tombola_inspect_def BingoCage_drain BingoCage_load_def
      list_extend_def sort_rev_eq split: prod.split)

lemma BingoCage_loaded_eq:
  "BingoCage_loaded s =
     Some (Inr (items s \<noteq> []),
           s\<lparr>randomizer := snd (shuffle (randomizer s) (rev (items s))),
             items := fst (shuffle (randomizer s) (rev (items s)))\<rparr>)"
  using BingoCage_inspect_eq [of s]
  by (simp add: BingoCage_loaded_def Tombola_loaded_def BingoCage_inspect_def sort_eq_Nil)

lemma pick_until_empty_picked:
  "picked pick s xs s' \<Longrightarrow>
     pick_until_empty pick s acc = pick_until_empty pick s' (acc @ xs)"
proof (induction arbitrary: acc rule: picked.induct)
  case (picked_none s)
  then show ?case by simp
next
  case (picked_more s x s' xs s'')
  have "pick_until_empty pick s acc = pick_until_empty pick s' (acc @ [x])"
    using picked_more.hyps(1) by (rule pick_until_empty_step)
  then show ?case using picked_more.IH [of "acc @ [x]"] by simp
qed

lemma BingoCage_init_eq:
  "BingoCage_init g S =
     (Inr (), \<lparr>randomizer = snd (shuffle g S), items = fst (shuffle g S)\<rparr>)"
  by (simp add: BingoCage_init_def BingoCage_load_def list_extend_def split: prod.split)

lemma BingoCage_load_eq:
  "BingoCage_load its s =
     (Inr (), s\<lparr>randomizer := snd (shuffle (randomizer s) (items s @ its)),
                items := fst (shuffle (randomizer s) (items s @ its))\<rparr>)"
  by (simp add: BingoCage_load_def list_extend_def split: prod.split)

lemma BingoCage_load_empty_inspect:
  "fst (BingoCage_load [] s) = Inr () \<and>
   map_option fst (BingoCage_inspect (snd (BingoCage_load [] s))) =
     map_option fst (BingoCage_inspect s)"
proof -
  have "sort (fst (shuffle (randomizer s) (items s))) = sort (items s)"
    by (rule properties_for_sort) (simp_all add: shuffle_mset)
  then show ?thesis by (simp add: BingoCage_load_eq BingoCage_inspect_eq)
qed

lemma LotteryBlower_load_empty_inspect:
  "LotteryBlower_load [] w = (Inr (), w)"
  by (cases w) (simp add: LotteryBlower_load_def list_extend_def)

lemma Tombola_inspect_picked:
  assumes "picked pick s xs s'" and "pick s' = (Inl e, s'')"
  shows "Tombola_inspect pick load s =
       (if isinstance_LookupError e then
          (case load xs s'' of
             (Inl e', t) \<Rightarrow> Some (Inl e', t)
           | (Inr _, t) \<Rightarrow> Some (Inr (sort xs), t))
        else Some (Inl e, s''))"
proof -
  have "pick_until_empty pick s [] = pick_until_empty pick s' ([] @ xs)"
    using assms(1) by (rule pick_until_empty_picked)
  also have "\<dots> = (if isinstance_LookupError e then Some (Inr xs, s'') else Some (Inl e, s''))"
    using assms(2) by (simp add: pick_until_empty_stop)
  finally show ?thesis by (simp add: Tombola_inspect_def)
qed

lemma BingoCage_load_then_drain:
  "\<exists>ys c'. pick_until_empty BingoCage_pick (snd (BingoCage_load S c)) [] = Some (Inr ys, c') \<and>
     mset ys = mset (items c) + mset S"
  by (simp add: BingoCage_load_eq BingoCage_drain shuffle_mset)

lemma LotteryBlower_load_then_drain:
  "\<exists>ys w'. pick_until_empty LotteryBlower_pick (snd (LotteryBlower_load S (g, b))) [] =
       Some (Inr ys, w') \<and>
     mset ys = mset (balls b) + mset S"
  using LotteryBlower_drain [of g "b\<lparr>balls := balls b @ S\<rparr>" "[]"]
  by (auto simp add: LotteryBlower_load_def list_extend_def)

lemma picked_once_then_none:
  "pick (Suc 0) = (Inr x, 0 :: nat) \<Longrightarrow> picked pick (Suc 0) [x] 0"
  by (rule picked_more [where s' = 0]) (simp_all add: picked_none)

section \<open>The claims\<close>

text \<open>
  Claim C1. For each of the three classes and every list \<open>S\<close> of items, an instance
  constructed with \<open>S\<close> is drained by calling \<^verbatim>\<open>pick\<close> until it raises \<^verbatim>\<open>LookupError\<close>: the
  loop ends, the picks return a list \<open>ys\<close> with the same multiset as \<open>S\<close> (every item
  once, none created, none lost, in some order), and the next \<^verbatim>\<open>pick\<close> raises
  \<^verbatim>\<open>LookupError\<close>. The same holds when \<open>S\<close> is put with \<^verbatim>\<open>load\<close> into a \<^verbatim>\<open>BingoCage\<close> or a
  \<^verbatim>\<open>LotteryBlower\<close> constructed without items. All of it holds for every sequence of
  random draws \<open>g\<close>.
\<close>

theorem drain_returns_loaded_items:
  "(\<exists>ys c. fst (BingoCage_init g S) = Inr () \<and>
       pick_until_empty BingoCage_pick (snd (BingoCage_init g S)) [] = Some (Inr ys, c) \<and>
       mset ys = mset S \<and> BingoCage_pick c = (Inl LookupError, c)) \<and>
   (\<exists>ys w. pick_until_empty LotteryBlower_pick (g, LotteryBlower_init S) [] = Some (Inr ys, w) \<and>
       mset ys = mset S \<and> LotteryBlower_pick w = (Inl LookupError, w)) \<and>
   (\<exists>ys w. pick_until_empty TomboList_pick (g, TomboList_init S) [] = Some (Inr ys, w) \<and>
       mset ys = mset S \<and> TomboList_pick w = (Inl LookupError, w)) \<and>
   (\<exists>ys c. pick_until_empty BingoCage_pick
         (snd (BingoCage_load S (snd (BingoCage_init g [])))) [] = Some (Inr ys, c) \<and>
       mset ys = mset S) \<and>
   (\<exists>ys w. pick_until_empty LotteryBlower_pick
         (snd (LotteryBlower_load S (g, LotteryBlower_init []))) [] = Some (Inr ys, w) \<and>
       mset ys = mset S)"
proof (intro conjI)
  show "\<exists>ys c. fst (BingoCage_init g S) = Inr () \<and>
       pick_until_empty BingoCage_pick (snd (BingoCage_init g S)) [] = Some (Inr ys, c) \<and>
       mset ys = mset S \<and> BingoCage_pick c = (Inl LookupError, c)"
    by (simp add: BingoCage_init_eq BingoCage_drain shuffle_mset BingoCage_pick_cases)
next
  obtain ys g' where
    "pick_until_empty LotteryBlower_pick (g, LotteryBlower_init S) [] =
       Some (Inr ([] @ ys), (g', (LotteryBlower_init S)\<lparr>balls := []\<rparr>))"
    and "mset ys = mset (balls (LotteryBlower_init S))"
    using LotteryBlower_drain [of g "LotteryBlower_init S" "[]"] by blast
  then show "\<exists>ys w. pick_until_empty LotteryBlower_pick (g, LotteryBlower_init S) [] = Some (Inr ys, w) \<and>
       mset ys = mset S \<and> LotteryBlower_pick w = (Inl LookupError, w)"
    by (simp add: LotteryBlower_init_def LotteryBlower_pick_cases)
next
  obtain ys g' where
    "pick_until_empty TomboList_pick (g, TomboList_init S) [] = Some (Inr ([] @ ys), (g', []))"
    and "mset ys = mset (TomboList_init S)"
    using TomboList_drain [of g "TomboList_init S" "[]"] by blast
  then show "\<exists>ys w. pick_until_empty TomboList_pick (g, TomboList_init S) [] = Some (Inr ys, w) \<and>
       mset ys = mset S \<and> TomboList_pick w = (Inl LookupError, w)"
    by (simp add: TomboList_init_def TomboList_pick_cases)
next
  show "\<exists>ys c. pick_until_empty BingoCage_pick
         (snd (BingoCage_load S (snd (BingoCage_init g [])))) [] = Some (Inr ys, c) \<and>
       mset ys = mset S"
    using BingoCage_load_then_drain [of S "snd (BingoCage_init g [])"]
    by (simp add: BingoCage_init_eq shuffle_Nil)
next
  show "\<exists>ys w. pick_until_empty LotteryBlower_pick
         (snd (LotteryBlower_load S (g, LotteryBlower_init []))) [] = Some (Inr ys, w) \<and>
       mset ys = mset S"
    using LotteryBlower_load_then_drain [of S g "LotteryBlower_init []"]
    by (simp add: LotteryBlower_init_def)
qed

text \<open>
  Claim C2. In each class, \<^verbatim>\<open>pick\<close> on empty storage raises \<^verbatim>\<open>LookupError\<close> and leaves the
  state as it was; this includes an instance constructed without items. In every
  state \<^verbatim>\<open>pick\<close> either raises \<^verbatim>\<open>LookupError\<close>, and then the storage was empty and is
  unchanged, or returns one item, and then the storage has lost exactly that item.
\<close>

theorem pick_fails_only_on_empty_storage:
  "(items c = [] \<longrightarrow> BingoCage_pick c = (Inl LookupError, c)) \<and>
   (balls b = [] \<longrightarrow> LotteryBlower_pick (g, b) = (Inl LookupError, (g, b))) \<and>
   (t = [] \<longrightarrow> TomboList_pick (g, t) = (Inl LookupError, (g, t))) \<and>
   BingoCage_pick (snd (BingoCage_init g [])) = (Inl LookupError, snd (BingoCage_init g [])) \<and>
   LotteryBlower_pick (g, LotteryBlower_init []) = (Inl LookupError, (g, LotteryBlower_init [])) \<and>
   TomboList_pick (g, TomboList_init []) = (Inl LookupError, (g, TomboList_init [])) \<and>
   (case BingoCage_pick c of
      (Inl e, c') \<Rightarrow> e = LookupError \<and> c' = c \<and> items c = []
    | (Inr x, c') \<Rightarrow> mset (items c) = add_mset x (mset (items c'))) \<and>
   (case LotteryBlower_pick (g, b) of
      (Inl e, w) \<Rightarrow> e = LookupError \<and> w = (g, b) \<and> balls b = []
    | (Inr x, w) \<Rightarrow> mset (balls b) = add_mset x (mset (balls (snd w)))) \<and>
   (case TomboList_pick (g, t) of
      (Inl e, w) \<Rightarrow> e = LookupError \<and> w = (g, t) \<and> t = []
    | (Inr x, w) \<Rightarrow> mset t = add_mset x (mset (snd w)))"
proof -
  have bc: "items c \<noteq> [] \<Longrightarrow> mset (items c) = add_mset (last (items c)) (mset (butlast (items c)))"
    by (rule mset_butlast_last)
  have lb: "balls b \<noteq> [] \<Longrightarrow> mset (balls b) =
      add_mset (balls b ! (g 0 mod length (balls b)))
        (mset (take (g 0 mod length (balls b)) (balls b) @
               drop (Suc (g 0 mod length (balls b))) (balls b)))"
    by (rule mset_remove_nth [symmetric]) simp
  have tl: "t \<noteq> [] \<Longrightarrow> mset t =
      add_mset (t ! (g 0 mod length t))
        (mset (take (g 0 mod length t) t @ drop (Suc (g 0 mod length t)) t))"
    by (rule mset_remove_nth [symmetric]) simp
  show ?thesis
    using bc lb tl
    by (simp add: BingoCage_pick_cases LotteryBlower_pick_cases TomboList_pick_cases
        BingoCage_init_eq shuffle_Nil LotteryBlower_init_def TomboList_init_def)
qed

theorem pick_fails_only_on_empty_storage_witness:
  "items \<lparr>randomizer = (\<lambda>_. 0), items = ([] :: nat list)\<rparr> = [] \<and>
   balls \<lparr>balls = ([] :: nat list)\<rparr> = [] \<and>
   BingoCage_pick \<lparr>randomizer = (\<lambda>_. 0), items = ([] :: nat list)\<rparr> =
     (Inl LookupError, \<lparr>randomizer = (\<lambda>_. 0), items = []\<rparr>) \<and>
   LotteryBlower_pick (\<lambda>_. 0, \<lparr>balls = ([] :: nat list)\<rparr>) =
     (Inl LookupError, (\<lambda>_. 0, \<lparr>balls = []\<rparr>)) \<and>
   TomboList_pick (\<lambda>_. 0, ([] :: nat list)) = (Inl LookupError, (\<lambda>_. 0, []))"
  using pick_fails_only_on_empty_storage
    [of "\<lparr>randomizer = (\<lambda>_. 0), items = ([] :: nat list)\<rparr>" "\<lparr>balls = ([] :: nat list)\<rparr>"
        "\<lambda>_. 0" "[] :: nat list"]
  by (elim conjE) simp

text \<open>
  Claim C3. \<^verbatim>\<open>TomboList\<close> is claimed to implement \<^verbatim>\<open>load\<close> as \<^verbatim>\<open>list.extend\<close>. In the
  code the assignment \<^verbatim>\<open>load = list.extend\<close> sits inside the body of \<^verbatim>\<open>pick\<close>, so the
  class has no \<^verbatim>\<open>load\<close>: on the list \<^verbatim>\<open>[1, 2]\<close> the call \<^verbatim>\<open>load([3])\<close> raises
  \<^verbatim>\<open>AttributeError\<close> and the list stays \<^verbatim>\<open>[1, 2]\<close>, where \<^verbatim>\<open>list.extend\<close> gives
  \<^verbatim>\<open>[1, 2, 3]\<close>.
\<close>

theorem TomboList_load_raises:
  "TomboList_load [3 :: nat] (g, [1, 2]) = (Inl AttributeError, (g, [1, 2])) \<and>
   list_extend [1, 2] [3 :: nat] = [1, 2, 3]"
  by (simp add: TomboList_load_def list_extend_def)

text \<open>
  Claim C4. In each class \<^verbatim>\<open>inspect\<close> returns the sorted list of the items in storage.
  For \<^verbatim>\<open>LotteryBlower\<close> and \<^verbatim>\<open>TomboList\<close> the state after the call is the state before
  it. For \<^verbatim>\<open>BingoCage\<close>, which inherits \<^verbatim>\<open>Tombola.inspect\<close>, the call returns, the
  multiset of the stored items is the same after it, and a second call returns the
  same sorted list and again keeps the multiset.
\<close>

theorem inspect_sorted_idempotent_nondestructive:
  "(\<exists>c c'. BingoCage_inspect s = Some (Inr (sort (items s)), c) \<and>
      mset (items c) = mset (items s) \<and>
      BingoCage_inspect c = Some (Inr (sort (items s)), c') \<and>
      mset (items c') = mset (items s)) \<and>
   LotteryBlower_inspect (g, b) = (Inr (sort (balls b)), (g, b)) \<and>
   TomboList_inspect (g, t) = (Inr (sort t), (g, t))"
proof -
  define c where "c = s\<lparr>randomizer := snd (shuffle (randomizer s) (rev (items s))),
             items := fst (shuffle (randomizer s) (rev (items s)))\<rparr>"
  have 1: "BingoCage_inspect s = Some (Inr (sort (items s)), c)"
    by (simp add: BingoCage_inspect_eq c_def)
  have 2: "mset (items c) = mset (items s)"
    by (simp add: c_def shuffle_mset)
  have "sort (items c) = sort (items s)"
    by (rule properties_for_sort) (simp_all add: 2)
  then have "\<exists>c'. BingoCage_inspect c = Some (Inr (sort (items s)), c') \<and>
      mset (items c') = mset (items s)"
    using 2 by (simp add: BingoCage_inspect_eq [of c] shuffle_mset)
  then show ?thesis using 1 2
    by (auto simp add: LotteryBlower_inspect_def TomboList_inspect_def)
qed

text \<open>
  Claim C5. In each class and every state, \<^verbatim>\<open>loaded\<close> returns \<^verbatim>\<open>False\<close> exactly when the
  next \<^verbatim>\<open>pick\<close> raises \<^verbatim>\<open>LookupError\<close>, and \<^verbatim>\<open>True\<close> exactly when at least one item is
  stored. For \<^verbatim>\<open>BingoCage\<close>, whose inherited \<^verbatim>\<open>loaded\<close> changes the state, this is shown
  for a \<^verbatim>\<open>pick\<close> in the state that \<^verbatim>\<open>loaded\<close> leaves behind and for a \<^verbatim>\<open>pick\<close> in the
  state before the call.
\<close>

theorem loaded_false_iff_pick_fails:
  "(\<exists>l c. BingoCage_loaded s = Some (Inr l, c) \<and>
      (l = False \<longleftrightarrow> fst (BingoCage_pick c) = Inl LookupError) \<and>
      (l = False \<longleftrightarrow> fst (BingoCage_pick s) = Inl LookupError) \<and>
      (l = True \<longleftrightarrow> items s \<noteq> [])) \<and>
   (\<exists>l. LotteryBlower_loaded (g, b) = (Inr l, (g, b)) \<and>
      (l = False \<longleftrightarrow> fst (LotteryBlower_pick (g, b)) = Inl LookupError) \<and>
      (l = True \<longleftrightarrow> balls b \<noteq> [])) \<and>
   (\<exists>l. TomboList_loaded (g, t) = (Inr l, (g, t)) \<and>
      (l = False \<longleftrightarrow> fst (TomboList_pick (g, t)) = Inl LookupError) \<and>
      (l = True \<longleftrightarrow> t \<noteq> []))"
proof (intro conjI)
  have "(fst (shuffle (randomizer s) (rev (items s))) = []) = (items s = [])"
    using shuffle_mset [of "randomizer s" "rev (items s)"]
    by (metis mset_zero_iff set_mset_mset set_rev set_empty)
  then show "\<exists>l c. BingoCage_loaded s = Some (Inr l, c) \<and>
      (l = False \<longleftrightarrow> fst (BingoCage_pick c) = Inl LookupError) \<and>
      (l = False \<longleftrightarrow> fst (BingoCage_pick s) = Inl LookupError) \<and>
      (l = True \<longleftrightarrow> items s \<noteq> [])"
    by (simp add: BingoCage_loaded_eq BingoCage_pick_cases)
next
  show "\<exists>l. LotteryBlower_loaded (g, b) = (Inr l, (g, b)) \<and>
      (l = False \<longleftrightarrow> fst (LotteryBlower_pick (g, b)) = Inl LookupError) \<and>
      (l = True \<longleftrightarrow> balls b \<noteq> [])"
    by (simp add: LotteryBlower_loaded_def LotteryBlower_pick_cases)
next
  show "\<exists>l. TomboList_loaded (g, t) = (Inr l, (g, t)) \<and>
      (l = False \<longleftrightarrow> fst (TomboList_pick (g, t)) = Inl LookupError) \<and>
      (l = True \<longleftrightarrow> t \<noteq> [])"
    by (simp add: TomboList_loaded_def TomboList_pick_cases)
qed

text \<open>
  Claim C6. \<^verbatim>\<open>BingoCage.load\<close> appends the new items to the stored sequence and shuffles
  the whole sequence with the instance's \<^verbatim>\<open>SystemRandom\<close>; the possible outcomes of a
  shuffle of \<open>xs\<close>, over all sequences of draws, are exactly the arrangements of \<open>xs\<close>.
  \<^verbatim>\<open>BingoCage.pick\<close> raises \<^verbatim>\<open>LookupError\<close> on an empty sequence and otherwise removes
  and returns the last element.
\<close>

theorem BingoCage_load_shuffles_pick_pops_last:
  "BingoCage_load its s =
     (Inr (), s\<lparr>randomizer := snd (shuffle (randomizer s) (items s @ its)),
                items := fst (shuffle (randomizer s) (items s @ its))\<rparr>) \<and>
   {ys. \<exists>g. ys = fst (shuffle g xs)} = {ys. mset ys = mset xs} \<and>
   BingoCage_pick s =
     (if items s = [] then (Inl LookupError, s)
      else (Inr (last (items s)), s\<lparr>items := butlast (items s)\<rparr>))"
  using BingoCage_load_eq [of its s] shuffle_outcomes [of xs] BingoCage_pick_cases [of s]
  by simp

text \<open>
  Claim C7. \<^verbatim>\<open>inspect\<close> on empty storage returns the empty tuple without raising, in each
  class. In \<^verbatim>\<open>Tombola.inspect\<close>, for any \<^verbatim>\<open>pick\<close> and \<^verbatim>\<open>load\<close>: when \<^verbatim>\<open>pick\<close> has returned
  the items \<open>xs\<close> and then raises \<open>e\<close>, the loop stops; if \<open>e\<close> is a \<^verbatim>\<open>LookupError\<close> the
  call goes on to reload \<open>xs\<close> and returns them sorted (or raises what \<^verbatim>\<open>load\<close>
  raises), and if \<open>e\<close> is anything else \<^verbatim>\<open>inspect\<close> raises \<open>e\<close> itself.
\<close>

theorem inspect_stops_at_LookupError_only:
  "(items c = [] \<longrightarrow> BingoCage_inspect c = Some (Inr [], c)) \<and>
   LotteryBlower_inspect (g, \<lparr>balls = []\<rparr>) = (Inr [], (g, \<lparr>balls = []\<rparr>)) \<and>
   TomboList_inspect (g, []) = (Inr [], (g, [])) \<and>
   (picked pick s xs s' \<and> pick s' = (Inl e, s'') \<longrightarrow>
      Tombola_inspect pick load s =
        (if isinstance_LookupError e then
           (case load xs s'' of
              (Inl e', t) \<Rightarrow> Some (Inl e', t)
            | (Inr _, t) \<Rightarrow> Some (Inr (sort xs), t))
         else Some (Inl e, s'')))"
proof (intro conjI impI)
  assume "items c = []"
  then show "BingoCage_inspect c = Some (Inr [], c)"
    by (simp add: BingoCage_inspect_eq shuffle_Nil)
next
  show "LotteryBlower_inspect (g, \<lparr>balls = []\<rparr>) = (Inr [], (g, \<lparr>balls = []\<rparr>))"
    by (simp add: LotteryBlower_inspect_def)
next
  show "TomboList_inspect (g, []) = (Inr [], (g, []))"
    by (simp add: TomboList_inspect_def)
next
  assume run: "picked pick s xs s' \<and> pick s' = (Inl e, s'')"
  show "Tombola_inspect pick load s =
        (if isinstance_LookupError e then
           (case load xs s'' of
              (Inl e', t) \<Rightarrow> Some (Inl e', t)
            | (Inr _, t) \<Rightarrow> Some (Inr (sort xs), t))
         else Some (Inl e, s''))"
    by (rule Tombola_inspect_picked [OF conjunct1 [OF run] conjunct2 [OF run]])
qed

theorem inspect_stops_at_LookupError_only_witness:
  "BingoCage_inspect \<lparr>randomizer = (\<lambda>_. 0), items = ([] :: nat list)\<rparr> =
     Some (Inr [], \<lparr>randomizer = (\<lambda>_. 0), items = []\<rparr>) \<and>
   Tombola_inspect (\<lambda>n :: nat. if n = 0 then (Inl ValueError, n) else (Inr n, n - 1))
       (\<lambda>xs n. (Inr (), n + length xs)) 1 = Some (Inl ValueError, 0) \<and>
   Tombola_inspect (\<lambda>n :: nat. if n = 0 then (Inl LookupError, n) else (Inr n, n - 1))
       (\<lambda>xs n. (Inr (), n + length xs)) 1 = Some (Inr [1], 1)"
proof (intro conjI)
  show "BingoCage_inspect \<lparr>randomizer = (\<lambda>_. 0), items = ([] :: nat list)\<rparr> =
     Some (Inr [], \<lparr>randomizer = (\<lambda>_. 0), items = []\<rparr>)"
    using inspect_stops_at_LookupError_only
      [of "\<lparr>randomizer = (\<lambda>_. 0), items = ([] :: nat list)\<rparr>", THEN conjunct1]
    by simp
next
  have "picked (\<lambda>n :: nat. if n = 0 then (Inl ValueError, n) else (Inr n, n - 1)) (Suc 0) [1] 0"
    by (rule picked_once_then_none) simp
  then show "Tombola_inspect (\<lambda>n :: nat. if n = 0 then (Inl ValueError, n) else (Inr n, n - 1))
       (\<lambda>xs n. (Inr (), n + length xs)) 1 = Some (Inl ValueError, 0)"
    using inspect_stops_at_LookupError_only
      [where pick = "\<lambda>n :: nat. if n = 0 then (Inl ValueError, n) else (Inr n, n - 1)"
         and s = 1 and xs = "[1]" and s' = 0 and e = ValueError and s'' = 0
         and load = "\<lambda>xs n. (Inr (), n + length xs)",
       THEN conjunct2, THEN conjunct2, THEN conjunct2]
    by simp
next
  have "picked (\<lambda>n :: nat. if n = 0 then (Inl LookupError, n) else (Inr n, n - 1)) (Suc 0) [1] 0"
    by (rule picked_once_then_none) simp
  then show "Tombola_inspect (\<lambda>n :: nat. if n = 0 then (Inl LookupError, n) else (Inr n, n - 1))
       (\<lambda>xs n. (Inr (), n + length xs)) 1 = Some (Inr [1], 1)"
    using inspect_stops_at_LookupError_only
      [where pick = "\<lambda>n :: nat. if n = 0 then (Inl LookupError, n) else (Inr n, n - 1)"
         and s = 1 and xs = "[1]" and s' = 0 and e = LookupError and s'' = 0
         and load = "\<lambda>xs n. (Inr (), n + length xs)",
       THEN conjunct2, THEN conjunct2, THEN conjunct2]
    by simp
qed

text \<open>
  Claim C8. \<^verbatim>\<open>load\<close> is claimed to accept an empty item set in every class. A
  \<^verbatim>\<open>TomboList\<close> has no \<^verbatim>\<open>load\<close> (see C3): on a new, empty \<^verbatim>\<open>TomboList\<close> the call
  \<^verbatim>\<open>load([])\<close> raises \<^verbatim>\<open>AttributeError\<close>. For \<^verbatim>\<open>BingoCage\<close> and \<^verbatim>\<open>LotteryBlower\<close> the
  lemmas \<open>BingoCage_load_empty_inspect\<close> and \<open>LotteryBlower_load_empty_inspect\<close> show
  that loading nothing succeeds and leaves the result of \<^verbatim>\<open>inspect\<close> as it was.
\<close>

theorem TomboList_load_empty_raises:
  "TomboList_load [] (g, TomboList_init ([] :: nat list)) =
     (Inl AttributeError, (g, TomboList_init []))"
  by (simp add: TomboList_load_def)

text \<open>
  Claim C9. Calling a \<^verbatim>\<open>BingoCage\<close> instance runs \<^verbatim>\<open>pick\<close> and drops its result: on a
  non-empty instance the call returns \<^verbatim>\<open>None\<close> and the last item is gone from storage;
  on an empty one it raises \<^verbatim>\<open>LookupError\<close>. Whatever \<^verbatim>\<open>pick\<close> returns, the call returns
  \<^verbatim>\<open>None\<close> in the state \<^verbatim>\<open>pick\<close> leaves, which holds one item less.
\<close>

theorem BingoCage_call_discards_item:
  "BingoCage_call s =
     (if items s = [] then (Inl LookupError, s)
      else (Inr None, s\<lparr>items := butlast (items s)\<rparr>)) \<and>
   (case BingoCage_pick s of
      (Inl e, s') \<Rightarrow> BingoCage_call s = (Inl e, s')
    | (Inr x, s') \<Rightarrow> BingoCage_call s = (Inr None, s') \<and>
        mset (items s) = add_mset x (mset (items s')))"
  using mset_butlast_last [of "items s"]
  by (simp add: BingoCage_call_def BingoCage_pick_cases)

text \<open>
  Claim C10. The inherited \<^verbatim>\<open>inspect\<close> and \<^verbatim>\<open>loaded\<close> of a \<^verbatim>\<open>BingoCage\<close> empty the storage
  with \<^verbatim>\<open>pick\<close> and put the picked items back with \<^verbatim>\<open>load\<close>: the state after the call is
  the state after loading the reversed sequence into the emptied instance. The
  multiset of the stored items is kept. The order is not: with draws that are all 1,
  the storage \<^verbatim>\<open>[1, 2]\<close> is \<^verbatim>\<open>[2, 1]\<close> after either call.
\<close>

theorem Tombola_reads_keep_multiset_not_order:
  "BingoCage_inspect s =
     Some (Inr (sort (items s)),
           snd (BingoCage_load (rev (items s)) (s\<lparr>items := []\<rparr>))) \<and>
   BingoCage_loaded s =
     Some (Inr (items s \<noteq> []),
           snd (BingoCage_load (rev (items s)) (s\<lparr>items := []\<rparr>))) \<and>
   mset (items (snd (BingoCage_load (rev (items s)) (s\<lparr>items := []\<rparr>)))) = mset (items s) \<and>
   (\<exists>c. BingoCage_inspect \<lparr>randomizer = (\<lambda>_. 1), items = [1, 2 :: nat]\<rparr> =
           Some (Inr [1, 2], c) \<and> items c = [2, 1]) \<and>
   (\<exists>c. BingoCage_loaded \<lparr>randomizer = (\<lambda>_. 1), items = [1, 2 :: nat]\<rparr> =
           Some (Inr True, c) \<and> items c = [2, 1])"
proof -
  have "shuffle (\<lambda>_. 1) [2, 1 :: nat] = ([2, 1], \<lambda>_. 1)"
    by (simp add: shuffle_def randbelow_def o_def)
  then show ?thesis
    by (simp add: BingoCage_inspect_eq BingoCage_loaded_eq BingoCage_load_eq shuffle_mset)
qed

end
